theory Spec2Isabelle
  imports Complex_Main
begin

section \<open>Gym tracker: trend line, progress statistics and the workout session store\<close>

text \<open>
  The development embeds three pieces of the repository:
  \<^item> \<open>calculateTrendLine\<close> (components/ProgressChart.tsx), the least-squares trend line;
  \<^item> \<open>get_exercise_progress_stats\<close>, the SQL function behind the progress statistics;
  \<^item> the Zustand store \<open>useWorkoutStore\<close> (stores/workoutStore.ts) with its persistence.

  Numbers. The trend line computes in JavaScript numbers, which are IEEE 754 doubles:
  every operation returns the double nearest to the exact result. The statistics compute
  in PostgreSQL \<open>NUMERIC\<close>: sums, differences and products are exact and a division is
  rounded to a scale that PostgreSQL selects. Both are modelled as such below. Identifiers
  (\<open>UUID\<close>) are strings and timestamps are integers (a point in time, ordered as the
  database orders them).
\<close>

type_synonym uuid = string
type_synonym timestamp = int

subsection \<open>Data model (types/database.ts and the table definitions)\<close>

record ProgressHistory =
  ph_id :: uuid
  ph_exercise_id :: uuid
  ph_weight :: real
  ph_notes :: "string option"
  ph_created_at :: timestamp

record WorkoutSession =
  ws_id :: uuid
  ws_day_id :: uuid
  ws_started_at :: timestamp
  ws_completed_at :: "timestamp option"
  ws_notes :: "string option"
  ws_created_at :: timestamp

text \<open>
  A \<open>SessionExercise\<close> held in the store's cache is built by object spread in
  \<open>recordWeight\<close>, so \<open>id\<close>, \<open>notes\<close> and \<open>created_at\<close> may be absent there
  (\<open>undefined\<close> is \<open>None\<close>). The joined \<open>exercise\<close> object is never set by the store and is
  left out.
\<close>

record SessionExercise =
  se_id :: "uuid option"
  se_session_id :: uuid
  se_exercise_id :: uuid
  se_weight_used :: "real option"
  se_sets_completed :: int
  se_reps_completed :: "string option"
  se_notes :: "string option"
  se_created_at :: "timestamp option"

subsection \<open>JavaScript numbers\<close>

text \<open>
  A number is a finite double, an infinity or NaN. A finite double is given by its real
  value; the two zeros are not told apart (they are equal under \<open>===\<close>, and no divisor in
  \<open>calculateTrendLine\<close> can be a negative zero: each is a length or a difference of two
  non-negative products).

  \<open>to_double\<close> is rounding to nearest, ties to even, in binary64: 53 significant bits,
  exponents from -1022 (below that the spacing stays \<open>2^-1074\<close>), and overflow to an
  infinity when the rounded magnitude reaches \<open>2^1024\<close>.
\<close>

datatype number = Finite real | PosInfinity | NegInfinity | NaN

definition exponent :: "real \<Rightarrow> int" where
  "exponent x = max \<lfloor>log 2 \<bar>x\<bar>\<rfloor> (- 1022)"

definition ulp :: "real \<Rightarrow> real" where
  "ulp x = power_int 2 (exponent x - 52)"

definition nearest_even :: "real \<Rightarrow> int" where
  "nearest_even x =
     (let f = \<lfloor>x\<rfloor>; d = x - of_int f
      in if d < 1 / 2 then f else if 1 / 2 < d then f + 1 else if even f then f else f + 1)"

definition overflow_threshold :: real where
  "overflow_threshold = 2 ^ 1024"

definition to_double :: "real \<Rightarrow> number" where
  "to_double x =
     (if x = 0 then Finite 0
      else (let r = of_int (nearest_even (x / ulp x)) * ulp x
            in if overflow_threshold \<le> \<bar>r\<bar>
               then (if 0 < x then PosInfinity else NegInfinity)
               else Finite r))"

definition signed_infinity :: "bool \<Rightarrow> number" where
  "signed_infinity positive = (if positive then PosInfinity else NegInfinity)"

text \<open>The operators \<open>+\<close>, unary and binary \<open>-\<close>, \<open>*\<close> and \<open>/\<close> on numbers.\<close>

fun add :: "number \<Rightarrow> number \<Rightarrow> number" where
  "add NaN _ = NaN"
| "add _ NaN = NaN"
| "add PosInfinity NegInfinity = NaN"
| "add NegInfinity PosInfinity = NaN"
| "add PosInfinity _ = PosInfinity"
| "add _ PosInfinity = PosInfinity"
| "add NegInfinity _ = NegInfinity"
| "add _ NegInfinity = NegInfinity"
| "add (Finite x) (Finite y) = to_double (x + y)"

fun negate :: "number \<Rightarrow> number" where
  "negate NaN = NaN"
| "negate PosInfinity = NegInfinity"
| "negate NegInfinity = PosInfinity"
| "negate (Finite x) = Finite (- x)"

definition sub :: "number \<Rightarrow> number \<Rightarrow> number" where
  "sub a b = add a (negate b)"

fun mul :: "number \<Rightarrow> number \<Rightarrow> number" where
  "mul NaN _ = NaN"
| "mul _ NaN = NaN"
| "mul (Finite x) (Finite y) = to_double (x * y)"
| "mul (Finite x) PosInfinity = (if x = 0 then NaN else signed_infinity (0 < x))"
| "mul (Finite x) NegInfinity = (if x = 0 then NaN else signed_infinity (x < 0))"
| "mul PosInfinity (Finite y) = (if y = 0 then NaN else signed_infinity (0 < y))"
| "mul NegInfinity (Finite y) = (if y = 0 then NaN else signed_infinity (y < 0))"
| "mul PosInfinity PosInfinity = PosInfinity"
| "mul NegInfinity NegInfinity = PosInfinity"
| "mul PosInfinity NegInfinity = NegInfinity"
| "mul NegInfinity PosInfinity = NegInfinity"

fun divide_number :: "number \<Rightarrow> number \<Rightarrow> number" where
  "divide_number NaN _ = NaN"
| "divide_number _ NaN = NaN"
| "divide_number (Finite x) (Finite y) =
     (if y = 0 then (if x = 0 then NaN else signed_infinity (0 < x)) else to_double (x / y))"
| "divide_number (Finite x) PosInfinity = Finite 0"
| "divide_number (Finite x) NegInfinity = Finite 0"
| "divide_number PosInfinity (Finite y) = signed_infinity (0 \<le> y)"
| "divide_number NegInfinity (Finite y) = signed_infinity (y < 0)"
| "divide_number PosInfinity PosInfinity = NaN"
| "divide_number PosInfinity NegInfinity = NaN"
| "divide_number NegInfinity PosInfinity = NaN"
| "divide_number NegInfinity NegInfinity = NaN"

text \<open>
  An array index or length as a number. Arrays are shorter than \<open>2^32\<close>, so the value is
  a double as it stands.
\<close>

definition of_index :: "nat \<Rightarrow> number" where
  "of_index i = Finite (real i)"

subsection \<open>The trend line\<close>

text \<open>
  \<open>Array.prototype.reduce\<close> with the callback receiving accumulator, element and index.
\<close>

definition reduce :: "('b \<Rightarrow> 'a \<Rightarrow> nat \<Rightarrow> 'b) \<Rightarrow> 'b \<Rightarrow> 'a list \<Rightarrow> 'b" where
  "reduce f init xs = fold (\<lambda>(i, y) acc. f acc y i) (enumerate 0 xs) init"

definition sumX :: "number list \<Rightarrow> number" where
  "sumX data = reduce (\<lambda>sum _ i. add sum (of_index i)) (Finite 0) data"

definition sumY :: "number list \<Rightarrow> number" where
  "sumY data = reduce (\<lambda>sum y _. add sum y) (Finite 0) data"

definition sumXY :: "number list \<Rightarrow> number" where
  "sumXY data = reduce (\<lambda>sum y i. add sum (mul (of_index i) y)) (Finite 0) data"

definition sumXX :: "number list \<Rightarrow> number" where
  "sumXX data = reduce (\<lambda>sum _ i. add sum (mul (of_index i) (of_index i))) (Finite 0) data"

definition slope :: "number list \<Rightarrow> number" where
  "slope data =
     (let n = of_index (length data)
      in divide_number (sub (mul n (sumXY data)) (mul (sumX data) (sumY data)))
                       (sub (mul n (sumXX data)) (mul (sumX data) (sumX data))))"

definition intercept :: "number list \<Rightarrow> number" where
  "intercept data =
     divide_number (sub (sumY data) (mul (slope data) (sumX data))) (of_index (length data))"

definition calculateTrendLine :: "number list \<Rightarrow> number list" where
  "calculateTrendLine data =
     (if length data < 2 then data
      else map (\<lambda>(i, _). add (mul (slope data) (of_index i)) (intercept data))
             (enumerate 0 data))"










subsection \<open>PostgreSQL \<open>NUMERIC\<close> division\<close>

text \<open>
  A \<open>NUMERIC\<close> is a decimal value with a display scale (the number of digits after the
  point); here it is the pair of its real value and its scale. Division chooses the scale
  of its result as \<open>select_div_scale\<close> does in PostgreSQL: from the weights (exponents in
  base 10000) and the first base-10000 digits of the operands, for at least 16 significant
  digits, and not less than either operand's scale. The quotient is rounded to that scale,
  half away from zero. Dividing by zero raises \<open>division_by_zero\<close>, which aborts the
  function. (The special value NaN of \<open>NUMERIC\<close> is left out: JSON cannot carry it into the
  table.)
\<close>

datatype pg_error = Division_by_zero

definition nbase_weight :: "real \<Rightarrow> int" where
  "nbase_weight x = (if x = 0 then 0 else \<lfloor>log 10000 \<bar>x\<bar>\<rfloor>)"

definition first_digit :: "real \<Rightarrow> int" where
  "first_digit x = (if x = 0 then 0 else \<lfloor>\<bar>x\<bar> / power_int 10000 (nbase_weight x)\<rfloor>)"

definition select_div_scale :: "real \<times> nat \<Rightarrow> real \<times> nat \<Rightarrow> nat" where
  "select_div_scale var1 var2 =
     (let qweight = nbase_weight (fst var1) - nbase_weight (fst var2)
                    - (if first_digit (fst var1) \<le> first_digit (fst var2) then 1 else 0);
          rscale = 16 - qweight * 4
      in nat (min (max (max (max rscale (int (snd var1))) (int (snd var2))) 0) 1000))"

definition round_var :: "real \<Rightarrow> nat \<Rightarrow> real" where
  "round_var x rscale = sgn x * of_int \<lfloor>\<bar>x\<bar> * 10 ^ rscale + 1 / 2\<rfloor> / 10 ^ rscale"

definition numeric_div :: "real \<times> nat \<Rightarrow> real \<times> nat \<Rightarrow> pg_error + real \<times> nat" where
  "numeric_div var1 var2 =
     (if fst var2 = 0 then Inl Division_by_zero
      else (let rscale = select_div_scale var1 var2
            in Inr (round_var (fst var1 / fst var2) rscale, rscale)))"

text \<open>The column \<open>progress_history.weight\<close> is \<open>DECIMAL(10, 2)\<close>.\<close>

definition weight_dscale :: nat where
  "weight_dscale = 2"

definition decimal_10_2 :: "real \<Rightarrow> bool" where
  "decimal_10_2 w = (real_of_int \<lfloor>w * 100\<rfloor> = w * 100 \<and> \<bar>w\<bar> < 10 ^ 8)"

subsection \<open>The progress statistics query\<close>

text \<open>
  \<open>get_exercise_progress_stats\<close> is one SQL statement with two common table expressions.
  NULL is \<open>None\<close>; an aggregate over no rows is NULL (\<open>COUNT\<close> is 0). The record fields
  hold the values of the \<open>NUMERIC\<close> results.
\<close>

record stats =
  total_sessions :: int
  max_weight :: "real option"
  min_weight :: "real option"
  avg_weight :: "real option"
  latest_weight :: "real option"

record progress_stats = stats +
  weight_progression :: "real option"

text \<open>The optional inclusive date range of the \<open>WHERE\<close> clause.\<close>

definition in_date_range :: "timestamp option \<Rightarrow> timestamp option \<Rightarrow> timestamp \<Rightarrow> bool" where
  "in_date_range p_start_date p_end_date t =
     ((case p_start_date of None \<Rightarrow> True | Some s \<Rightarrow> s \<le> t) \<and>
      (case p_end_date of None \<Rightarrow> True | Some e \<Rightarrow> t \<le> e))"

definition selected_rows ::
  "ProgressHistory list \<Rightarrow> uuid \<Rightarrow> timestamp option \<Rightarrow> timestamp option
     \<Rightarrow> ProgressHistory list" where
  "selected_rows tbl p_exercise_id p_start_date p_end_date =
     filter (\<lambda>ph. ph_exercise_id ph = p_exercise_id \<and>
                   in_date_range p_start_date p_end_date (ph_created_at ph)) tbl"

text \<open>
  The CTE \<open>progress_data\<close>: the selected rows with \<open>ROW_NUMBER() OVER (ORDER BY created_at
  DESC)\<close>, numbered from 1. PostgreSQL leaves the order among equal timestamps open; the
  model breaks ties by table order, and no theorem below depends on how ties are broken.
\<close>

definition progress_data ::
  "ProgressHistory list \<Rightarrow> uuid \<Rightarrow> timestamp option \<Rightarrow> timestamp option
     \<Rightarrow> (nat \<times> ProgressHistory) list" where
  "progress_data tbl p_exercise_id p_start_date p_end_date =
     enumerate 1 (sort_key (\<lambda>ph. - ph_created_at ph)
       (selected_rows tbl p_exercise_id p_start_date p_end_date))"

definition sql_max :: "real list \<Rightarrow> real option" where
  "sql_max ws = (case ws of [] \<Rightarrow> None | w # rest \<Rightarrow> Some (fold max rest w))"

definition sql_min :: "real list \<Rightarrow> real option" where
  "sql_min ws = (case ws of [] \<Rightarrow> None | w # rest \<Rightarrow> Some (fold min rest w))"

text \<open>
  \<open>AVG\<close> over \<open>NUMERIC\<close> divides the exact sum (which has the scale of the column) by the
  count (an integer, scale 0) with \<open>NUMERIC\<close> division; the count is not zero.
\<close>

definition sql_avg :: "real list \<Rightarrow> real option" where
  "sql_avg ws =
     (case ws of
        [] \<Rightarrow> None
      | _ # _ \<Rightarrow>
          (case numeric_div (sum_list ws, weight_dscale) (real (length ws), 0) of
             Inl e \<Rightarrow> None
           | Inr (q, rscale) \<Rightarrow> Some q))"

text \<open>The CTE \<open>stats\<close>; \<open>latest_weight\<close> is the scalar subquery \<open>WHERE rn = 1\<close>.\<close>

definition stats_cte :: "(nat \<times> ProgressHistory) list \<Rightarrow> stats" where
  "stats_cte pd =
     (let ws = map (\<lambda>(rn, ph). ph_weight ph) pd
      in \<lparr> total_sessions = int (length pd),
           max_weight = sql_max ws,
           min_weight = sql_min ws,
           avg_weight = sql_avg ws,
           latest_weight =
             map_option (\<lambda>(rn, ph). ph_weight ph) (find (\<lambda>(rn, ph). rn = 1) pd) \<rparr>)"

text \<open>
  The final \<open>SELECT\<close>. The query has aggregates and no \<open>GROUP BY\<close>, so it returns exactly
  one row; the callers read \<open>data[0]\<close>. \<open>Inl\<close> is the error that aborts the call. The
  difference has the scale of the column, the quotient is a \<open>NUMERIC\<close> division, and the
  product with the integer 100 is exact.
\<close>

definition get_exercise_progress_stats ::
  "ProgressHistory list \<Rightarrow> uuid \<Rightarrow> timestamp option \<Rightarrow> timestamp option
     \<Rightarrow> pg_error + progress_stats" where
  "get_exercise_progress_stats tbl p_exercise_id p_start_date p_end_date =
     (let s = stats_cte (progress_data tbl p_exercise_id p_start_date p_end_date)
      in if total_sessions s > 1 then
           (case (latest_weight s, min_weight s) of
              (Some l, Some m) \<Rightarrow>
                 (case numeric_div (l - m, weight_dscale) (m, weight_dscale) of
                    Inl e \<Rightarrow> Inl e
                  | Inr (q, rscale) \<Rightarrow>
                      Inr (stats.extend s \<lparr> weight_progression = Some (q * 100) \<rparr>))
            | _ \<Rightarrow> Inr (stats.extend s \<lparr> weight_progression = None \<rparr>))
         else Inr (stats.extend s \<lparr> weight_progression = Some 0 \<rparr>))"

text \<open>A weight observation for the examples: exercise, weight, time of creation.\<close>

definition observation :: "uuid \<Rightarrow> real \<Rightarrow> timestamp \<Rightarrow> ProgressHistory" where
  "observation e w t =
     \<lparr> ph_id = ''ph'', ph_exercise_id = e, ph_weight = w, ph_notes = None, ph_created_at = t \<rparr>"

subsection \<open>JavaScript \<open>Map\<close> with string keys\<close>

text \<open>
  A \<open>Map\<close> keeps its entries in insertion order and never holds a key twice. \<open>set\<close>
  replaces the value of a present key in place and appends an absent one.
\<close>

datatype 'v JsMap = JsMap (entries: "(string \<times> 'v) list")

fun set_entry :: "string \<Rightarrow> 'v \<Rightarrow> (string \<times> 'v) list \<Rightarrow> (string \<times> 'v) list" where
  "set_entry k v [] = [(k, v)]"
| "set_entry k v ((k', v') # es) =
     (if k' = k then (k, v) # es else (k', v') # set_entry k v es)"

definition Map_get :: "'v JsMap \<Rightarrow> string \<Rightarrow> 'v option" where
  "Map_get m k = map_of (entries m) k"

definition Map_set :: "'v JsMap \<Rightarrow> string \<Rightarrow> 'v \<Rightarrow> 'v JsMap" where
  "Map_set m k v = JsMap (set_entry k v (entries m))"

definition Map_values :: "'v JsMap \<Rightarrow> 'v list" where
  "Map_values m = map snd (entries m)"

text \<open>\<open>new Map(iterable)\<close>: \<open>set\<close> each pair of the iterable, in order, on an empty map.\<close>

definition new_Map :: "(string \<times> 'v) list \<Rightarrow> 'v JsMap" where
  "new_Map es = fold (\<lambda>(k, v) m. Map_set m k v) es (JsMap [])"

definition distinct_keys :: "'v JsMap \<Rightarrow> bool" where
  "distinct_keys m = distinct (map fst (entries m))"

subsection \<open>The remote store and the store's state\<close>

text \<open>
  The template literal \<open>`${exerciseId}-${setIndex}`\<close>; \<open>setIndex\<close> is an array index in
  every caller and is rendered in decimal.
\<close>

fun digits :: "nat \<Rightarrow> string" where
  "digits n =
     (if n < 10 then [''0123456789'' ! n]
      else digits (n div 10) @ [''0123456789'' ! (n mod 10)])"

declare digits.simps [simp del]

definition session_key :: "uuid \<Rightarrow> nat \<Rightarrow> string" where
  "session_key exerciseId setIndex = exerciseId @ ''-'' @ digits setIndex"

text \<open>
  How an awaited Supabase call ends. The client resolves to \<open>{ data, error }\<close>: a failure
  reported by the backend (a policy denial, a constraint violation) arrives as a non-null
  \<open>error\<close> in the resolved value, which is why \<open>startWorkoutSession\<close> and the other call
  sites of the repository write \<open>if (error) throw error\<close>. \<open>Throws\<close> is a rejected promise:
  the \<open>await\<close> itself raises.
\<close>

datatype fault = NoFault | ErrorResult string | Throws string

datatype request =
    Insert_progress_history uuid real
  | Insert_workout_sessions uuid
  | Update_workout_sessions uuid timestamp
  | Insert_session_exercises "SessionExercise list"
  | Select_workout_sessions uuid

text \<open>
  The remote tables the store touches, and the log of the requests it has issued (a
  request is issued whether or not it succeeds; a failed one leaves the tables alone).
\<close>

record Remote =
  progress_history :: "ProgressHistory list"
  workout_sessions :: "WorkoutSession list"
  session_exercises :: "SessionExercise list"
  issued :: "request list"

record WorkoutStore =
  currentSession :: "WorkoutSession option"
  sessionExercises :: "SessionExercise JsMap"
  isLoading :: bool
  error :: "string option"

definition initial_store :: WorkoutStore where
  "initial_store =
     \<lparr> currentSession = None, sessionExercises = JsMap [], isLoading = False, error = None \<rparr>"

definition empty_remote :: Remote where
  "empty_remote =
     \<lparr> progress_history = [], workout_sessions = [], session_exercises = [], issued = [] \<rparr>"

definition issue :: "request \<Rightarrow> Remote \<Rightarrow> Remote" where
  "issue r db = db\<lparr> issued := issued db @ [r] \<rparr>"

subsection \<open>The store's actions\<close>

text \<open>
  Every action takes the pair of the store's state and the remote store, and returns the
  pair afterwards. The values the server fills in on insert (\<open>gen_random_uuid()\<close>,
  \<open>NOW()\<close>) and the client clock are arguments, as is the way each awaited call ends.
\<close>

definition startWorkoutSession ::
  "fault \<Rightarrow> uuid \<Rightarrow> timestamp \<Rightarrow> uuid \<Rightarrow> WorkoutStore \<times> Remote \<Rightarrow> WorkoutStore \<times> Remote" where
  "startWorkoutSession f new_id now dayId w =
     (let st = (fst w)\<lparr> isLoading := True, error := None \<rparr>;
          db = issue (Insert_workout_sessions dayId) (snd w)
      in case f of
           NoFault \<Rightarrow>
             (let data = \<lparr> ws_id = new_id, ws_day_id = dayId, ws_started_at = now,
                           ws_completed_at = None, ws_notes = None, ws_created_at = now \<rparr>
              in (st\<lparr> currentSession := Some data, isLoading := False \<rparr>,
                  db\<lparr> workout_sessions := workout_sessions db @ [data] \<rparr>))
         | ErrorResult msg \<Rightarrow> (st\<lparr> error := Some msg, isLoading := False \<rparr>, db)
         | Throws msg \<Rightarrow> (st\<lparr> error := Some msg, isLoading := False \<rparr>, db))"

text \<open>
  \<open>{ ...existing, exercise_id, session_id, weight_used, sets_completed:
  (existing?.sets_completed || 0) + 1 }\<close>.
\<close>

definition updatedExercise ::
  "SessionExercise option \<Rightarrow> uuid \<Rightarrow> uuid \<Rightarrow> real \<Rightarrow> SessionExercise" where
  "updatedExercise existing exerciseId sessionId weight =
     (case existing of
        None \<Rightarrow>
          \<lparr> se_id = None, se_session_id = sessionId, se_exercise_id = exerciseId,
            se_weight_used = Some weight, se_sets_completed = 0 + 1,
            se_reps_completed = None, se_notes = None, se_created_at = None \<rparr>
      | Some ex \<Rightarrow>
          ex\<lparr> se_exercise_id := exerciseId, se_session_id := sessionId,
              se_weight_used := Some weight,
              se_sets_completed :=
                (if se_sets_completed ex = 0 then 0 else se_sets_completed ex) + 1 \<rparr>)"

text \<open>
  \<open>recordWeight\<close> awaits the insert and does not look at what it resolved to: only a
  rejected promise reaches the \<open>catch\<close>.
\<close>

definition recordWeight ::
  "fault \<Rightarrow> uuid \<Rightarrow> timestamp \<Rightarrow> uuid \<Rightarrow> real \<Rightarrow> nat \<Rightarrow> WorkoutStore \<times> Remote
     \<Rightarrow> WorkoutStore \<times> Remote" where
  "recordWeight f new_id now exerciseId weight setIndex w =
     (case currentSession (fst w) of
        None \<Rightarrow> w
      | Some cs \<Rightarrow>
          (let st = fst w;
               db0 = issue (Insert_progress_history exerciseId weight) (snd w);
               row = \<lparr> ph_id = new_id, ph_exercise_id = exerciseId, ph_weight = weight,
                       ph_notes = None, ph_created_at = now \<rparr>;
               db = (case f of
                       NoFault \<Rightarrow> db0\<lparr> progress_history := progress_history db0 @ [row] \<rparr>
                     | ErrorResult msg \<Rightarrow> db0
                     | Throws msg \<Rightarrow> db0)
           in case f of
                Throws msg \<Rightarrow> (st\<lparr> error := Some msg \<rparr>, db)
              | _ \<Rightarrow>
                 (let key = session_key exerciseId setIndex;
                      existing = Map_get (sessionExercises st) key;
                      updated = Map_set (sessionExercises st) key
                                  (updatedExercise existing exerciseId (ws_id cs) weight)
                  in (st\<lparr> sessionExercises := new_Map (entries updated) \<rparr>, db))))"

definition completeSet ::
  "uuid \<Rightarrow> nat \<Rightarrow> string \<Rightarrow> WorkoutStore \<times> Remote \<Rightarrow> WorkoutStore \<times> Remote" where
  "completeSet exerciseId setIndex reps w =
     (let st = fst w;
          key = session_key exerciseId setIndex
      in case Map_get (sessionExercises st) key of
           None \<Rightarrow> w
         | Some existing \<Rightarrow>
            (let updated = Map_set (sessionExercises st) key
                             (existing\<lparr> se_reps_completed := Some reps \<rparr>)
             in (st\<lparr> sessionExercises := new_Map (entries updated) \<rparr>, snd w)))"

text \<open>\<open>ex.weight_used && ex.weight_used > 0\<close>.\<close>

definition has_weight :: "SessionExercise \<Rightarrow> bool" where
  "has_weight ex = (case se_weight_used ex of None \<Rightarrow> False | Some x \<Rightarrow> x \<noteq> 0 \<and> x > 0)"

text \<open>
  \<open>completeWorkoutSession\<close> awaits the update and then, when some entry has a weight, the
  bulk insert; neither result is looked at. \<open>f1\<close> is how the update ends, \<open>f2\<close> how the
  insert ends when it is issued.
\<close>

definition completeWorkoutSession ::
  "fault \<Rightarrow> fault \<Rightarrow> timestamp \<Rightarrow> WorkoutStore \<times> Remote \<Rightarrow> WorkoutStore \<times> Remote" where
  "completeWorkoutSession f1 f2 now w =
     (case currentSession (fst w) of
        None \<Rightarrow> w
      | Some cs \<Rightarrow>
          (let st = fst w;
               db0 = issue (Update_workout_sessions (ws_id cs) now) (snd w);
               db1 = (case f1 of
                        NoFault \<Rightarrow>
                          db0\<lparr> workout_sessions :=
                                map (\<lambda>s. if ws_id s = ws_id cs
                                          then s\<lparr> ws_completed_at := Some now \<rparr> else s)
                                    (workout_sessions db0) \<rparr>
                      | ErrorResult msg \<Rightarrow> db0
                      | Throws msg \<Rightarrow> db0)
           in case f1 of
                Throws msg \<Rightarrow> (st\<lparr> error := Some msg \<rparr>, db1)
              | _ \<Rightarrow>
                 (let exercisesToSave = filter has_weight (Map_values (sessionExercises st));
                      cleared = st\<lparr> currentSession := None, sessionExercises := new_Map [],
                                     isLoading := False \<rparr>
                  in if length exercisesToSave > 0 then
                       (let db2 = issue (Insert_session_exercises exercisesToSave) db1
                        in case f2 of
                             NoFault \<Rightarrow>
                               (cleared,
                                db2\<lparr> session_exercises :=
                                      session_exercises db2 @ exercisesToSave \<rparr>)
                           | ErrorResult msg \<Rightarrow> (cleared, db2)
                           | Throws msg \<Rightarrow> (st\<lparr> error := Some msg \<rparr>, db2))
                     else (cleared, db1))))"

text \<open>
  The query of \<open>loadCurrentSession\<close>: the open sessions of the day, latest start first,
  \<open>limit(1).single()\<close>. With no row \<open>data\<close> is null.
\<close>

definition open_sessions :: "WorkoutSession list \<Rightarrow> uuid \<Rightarrow> WorkoutSession list" where
  "open_sessions tbl dayId =
     filter (\<lambda>s. ws_day_id s = dayId \<and> ws_completed_at s = None) tbl"

definition select_current :: "WorkoutSession list \<Rightarrow> uuid \<Rightarrow> WorkoutSession option" where
  "select_current tbl dayId =
     (case sort_key (\<lambda>s. - ws_started_at s) (open_sessions tbl dayId) of
        [] \<Rightarrow> None
      | s # _ \<Rightarrow> Some s)"

definition loadCurrentSession ::
  "fault \<Rightarrow> uuid \<Rightarrow> WorkoutStore \<times> Remote \<Rightarrow> WorkoutStore \<times> Remote" where
  "loadCurrentSession f dayId w =
     (let st = fst w;
          db = issue (Select_workout_sessions dayId) (snd w)
      in case f of
           NoFault \<Rightarrow>
             (case select_current (workout_sessions db) dayId of
                None \<Rightarrow> (st, db)
              | Some data \<Rightarrow> (st\<lparr> currentSession := Some data \<rparr>, db))
         | ErrorResult msg \<Rightarrow> (st, db)
         | Throws msg \<Rightarrow> (st, db))"

definition clearSession :: "WorkoutStore \<times> Remote \<Rightarrow> WorkoutStore \<times> Remote" where
  "clearSession w =
     ((fst w)\<lparr> currentSession := None, sessionExercises := new_Map [], error := None \<rparr>,
      snd w)"

subsection \<open>Persistence\<close>

text \<open>
  \<open>partialize\<close> picks what is stored: the session and the map's entries as an array.
\<close>

record PersistedState =
  persisted_currentSession :: "WorkoutSession option"
  persisted_sessionExercises :: "(string \<times> SessionExercise) list"

definition partialize :: "WorkoutStore \<Rightarrow> PersistedState" where
  "partialize state =
     \<lparr> persisted_currentSession = currentSession state,
       persisted_sessionExercises = entries (sessionExercises state) \<rparr>"

text \<open>
  On load the persist middleware lays the stored fields over the initial state, so the
  state handed to the \<open>onRehydrateStorage\<close> callback carries \<open>sessionExercises\<close> as the
  stored array, not as a \<open>Map\<close>; the callback tests \<open>Array.isArray\<close> for that reason. The
  JSON text in between is the middleware's and is taken to give back the stored values.
\<close>

datatype 'v map_or_array = IsMap "'v JsMap" | IsArray "(string \<times> 'v) list"

record RehydratedState =
  rehydrated_currentSession :: "WorkoutSession option"
  rehydrated_sessionExercises :: "SessionExercise map_or_array"
  rehydrated_isLoading :: bool
  rehydrated_error :: "string option"

definition merge_persisted :: "PersistedState \<Rightarrow> WorkoutStore \<Rightarrow> RehydratedState" where
  "merge_persisted p init =
     \<lparr> rehydrated_currentSession = persisted_currentSession p,
       rehydrated_sessionExercises = IsArray (persisted_sessionExercises p),
       rehydrated_isLoading = isLoading init,
       rehydrated_error = error init \<rparr>"

text \<open>
  The callback: \<open>if (state && Array.isArray(state.sessionExercises))
  state.sessionExercises = new Map(state.sessionExercises)\<close>.
\<close>

definition onRehydrateStorage :: "RehydratedState option \<Rightarrow> RehydratedState option" where
  "onRehydrateStorage state =
     (case state of
        None \<Rightarrow> None
      | Some s \<Rightarrow>
          (case rehydrated_sessionExercises s of
             IsArray es \<Rightarrow> Some (s\<lparr> rehydrated_sessionExercises := IsMap (new_Map es) \<rparr>)
           | IsMap m \<Rightarrow> Some s))"

subsection \<open>Example data\<close>

definition two_rising :: "ProgressHistory list" where
  "two_rising = [observation ''squat'' 80 10, observation ''squat'' 100 20]"

definition three_sessions :: "ProgressHistory list" where
  "three_sessions =
     [observation ''row'' 40 5, observation ''row'' 55 30, observation ''row'' 50 12,
      observation ''press'' 20 40]"

definition session1 :: WorkoutSession where
  "session1 = \<lparr> ws_id = ''s1'', ws_day_id = ''push-day'', ws_started_at = 100,
                ws_completed_at = None, ws_notes = None, ws_created_at = 100 \<rparr>"

definition bench_entry :: "int \<Rightarrow> SessionExercise" where
  "bench_entry n = \<lparr> se_id = None, se_session_id = ''s1'', se_exercise_id = ''bench'',
                     se_weight_used = Some 50, se_sets_completed = n,
                     se_reps_completed = None, se_notes = None, se_created_at = None \<rparr>"

text \<open>
  A state the actions reach from the initial one: a session is started for a training day
  and one weight is recorded for the first set of an exercise.
\<close>

definition active_world :: "WorkoutStore \<times> Remote" where
  "active_world =
     recordWeight NoFault ''ph1'' 110 ''bench'' 50 0
       (startWorkoutSession NoFault ''s1'' 100 ''push-day'' (initial_store, empty_remote))"

definition two_entries :: WorkoutStore where
  "two_entries =
     \<lparr> currentSession = Some session1,
       sessionExercises =
         JsMap [(''bench-0'', bench_entry 2),
                (''bench-1'', (bench_entry 1)\<lparr> se_reps_completed := Some ''8'' \<rparr>)],
       isLoading = False, error = None \<rparr>"

definition two_open :: "WorkoutStore \<times> Remote" where
  "two_open = startWorkoutSession NoFault ''s2'' 140 ''push-day'' active_world"

section \<open>Properties\<close>

subsection \<open>Double arithmetic\<close>


lemma powr_int_2: "(2::real) powr real_of_int k = power_int 2 k"
  by (simp add: powr_real_of_int power_int_def power_one_over inverse_eq_divide)

lemma floor_log2_eq:
  assumes "power_int 2 k \<le> \<bar>x\<bar>" and "\<bar>x\<bar> < power_int 2 (k + 1)"
  shows "\<lfloor>log 2 \<bar>x\<bar>\<rfloor> = k"
proof -
  have pos: "0 < \<bar>x\<bar>" using assms(1) by (smt (verit) zero_less_power_int)
  have lo: "2 powr real_of_int k \<le> \<bar>x\<bar>"
    using assms(1) by (simp only: powr_int_2)
  have "\<bar>x\<bar> < 2 powr real_of_int (k + 1)"
    using assms(2) by (simp only: powr_int_2)
  then have hi: "\<bar>x\<bar> < 2 powr (real_of_int k + 1)" by simp
  show ?thesis
    using floor_log_eq_powr_iff [of "\<bar>x\<bar>" 2 k] pos lo hi by simp
qed
























subsection \<open>The least-squares formulas in exact arithmetic\<close>














subsection \<open>The trend line\<close>









text \<open>
  Claim C8. On an input of fewer than two values (empty or a single element)
  \<open>calculateTrendLine\<close> returns the input unchanged.
\<close>

theorem calculateTrendLine_short_input:
  assumes "length data < 2"
  shows "calculateTrendLine data = data"
  using assms by (simp add: calculateTrendLine_def)

theorem calculateTrendLine_short_input_witness:
  "length ([] :: number list) < 2 \<and> calculateTrendLine [] = []
   \<and> length [Finite 42] < 2 \<and> calculateTrendLine [Finite 42] = [Finite 42]"
  using calculateTrendLine_short_input [of "[]"] calculateTrendLine_short_input [of "[Finite 42]"]
  by simp

subsection \<open>The progress statistics\<close>

subsubsection \<open>Rounding of \<open>NUMERIC\<close> division\<close>

lemma powr_int_10000: "(10000::real) powr real_of_int k = power_int 10000 k"
  by (simp add: powr_real_of_int power_int_def power_one_over inverse_eq_divide)

lemma nbase_weight_eq:
  assumes "power_int 10000 k \<le> \<bar>x\<bar>" and "\<bar>x\<bar> < power_int 10000 (k + 1)"
  shows "nbase_weight x = k"
proof -
  have pos: "0 < \<bar>x\<bar>" using assms(1) by (smt (verit) zero_less_power_int)
  have lo: "10000 powr real_of_int k \<le> \<bar>x\<bar>"
    using assms(1) by (simp only: powr_int_10000)
  have "\<bar>x\<bar> < 10000 powr real_of_int (k + 1)"
    using assms(2) by (simp only: powr_int_10000)
  then have hi: "\<bar>x\<bar> < 10000 powr (real_of_int k + 1)" by simp
  have "\<lfloor>log 10000 \<bar>x\<bar>\<rfloor> = k"
    using floor_log_eq_powr_iff [of "\<bar>x\<bar>" 10000 k] pos lo hi by simp
  then show ?thesis using pos by (simp add: nbase_weight_def)
qed

lemma nbase_weight_units:
  assumes "1 \<le> \<bar>x\<bar>" and "\<bar>x\<bar> < 10000"
  shows "nbase_weight x = 0" and "first_digit x = \<lfloor>\<bar>x\<bar>\<rfloor>"
proof -
  show w: "nbase_weight x = 0" using assms by (intro nbase_weight_eq) simp_all
  show "first_digit x = \<lfloor>\<bar>x\<bar>\<rfloor>" using assms by (auto simp: first_digit_def w)
qed

text \<open>Rounding to a scale: monotone, exact on values of that scale, off by at most half a unit.\<close>

lemma round_var_nonneg: "0 \<le> x \<Longrightarrow> round_var x s = of_int \<lfloor>x * 10 ^ s + 1 / 2\<rfloor> / 10 ^ s"
  by (cases "x = 0") (simp_all add: round_var_def)

lemma round_var_neg: "x < 0 \<Longrightarrow> round_var x s = - (of_int \<lfloor>- x * 10 ^ s + 1 / 2\<rfloor> / 10 ^ s)"
  by (simp add: round_var_def)

lemma round_var_mono:
  assumes "x \<le> y"
  shows "round_var x s \<le> round_var y s"
proof -
  have nonneg: "0 \<le> of_int \<lfloor>z * 10 ^ s + 1 / 2\<rfloor> / (10 ^ s :: real)" if "0 \<le> z" for z :: real
  proof -
    have "0 \<le> z * 10 ^ s + 1 / 2" using that by simp
    then have "0 \<le> \<lfloor>z * 10 ^ s + 1 / 2\<rfloor>" by simp
    then show ?thesis by simp
  qed
  consider "0 \<le> x" | "x < 0" "0 \<le> y" | "y < 0" using assms by linarith
  then show ?thesis
  proof cases
    case 1
    then have "0 \<le> y" using assms by simp
    have "x * 10 ^ s + 1 / 2 \<le> y * 10 ^ s + 1 / 2" using assms by simp
    then have "\<lfloor>x * 10 ^ s + 1 / 2\<rfloor> \<le> \<lfloor>y * 10 ^ s + 1 / 2\<rfloor>" by (rule floor_mono)
    then show ?thesis
      by (simp add: round_var_nonneg 1 \<open>0 \<le> y\<close> divide_right_mono)
  next
    case 2
    have "round_var x s \<le> 0" using nonneg [of "- x"] 2(1) by (simp add: round_var_neg)
    moreover have "0 \<le> round_var y s" using nonneg [of y] 2(2) by (simp add: round_var_nonneg)
    ultimately show ?thesis by simp
  next
    case 3
    then have "x < 0" using assms by simp
    have "- y * 10 ^ s + 1 / 2 \<le> - x * 10 ^ s + 1 / 2" using assms by simp
    then have "\<lfloor>- y * 10 ^ s + 1 / 2\<rfloor> \<le> \<lfloor>- x * 10 ^ s + 1 / 2\<rfloor>" by (rule floor_mono)
    then show ?thesis
      by (simp add: round_var_neg 3 \<open>x < 0\<close> divide_right_mono)
  qed
qed

lemma round_var_exact:
  assumes "x * 10 ^ s = real_of_int z"
  shows "round_var x s = x"
proof -
  have x: "real_of_int z / 10 ^ s = x" using assms by (simp add: field_simps)
  show ?thesis
  proof (cases "0 \<le> x")
    case True
    have fl: "\<lfloor>x * 10 ^ s + 1 / 2\<rfloor> = z" by (simp add: assms)
    have "round_var x s = of_int \<lfloor>x * 10 ^ s + 1 / 2\<rfloor> / 10 ^ s"
      by (rule round_var_nonneg [OF True])
    also have "\<dots> = x" by (simp only: fl x)
    finally show ?thesis .
  next
    case False
    then have neg: "x < 0" by simp
    have "- x * 10 ^ s = real_of_int (- z)" using assms by simp
    then have fl: "\<lfloor>- x * 10 ^ s + 1 / 2\<rfloor> = - z" by simp
    have "round_var x s = - (of_int \<lfloor>- x * 10 ^ s + 1 / 2\<rfloor> / 10 ^ s)"
      by (rule round_var_neg [OF neg])
    also have "\<dots> = real_of_int z / 10 ^ s" by (subst fl) simp
    also have "\<dots> = x" by (rule x)
    finally show ?thesis .
  qed
qed

lemma round_var_error: "\<bar>round_var x s - x\<bar> \<le> 1 / (2 * 10 ^ s)"
proof -
  have close: "\<bar>of_int \<lfloor>z + 1 / 2\<rfloor> - z\<bar> \<le> 1 / 2" for z :: real by linarith
  have scale: "\<bar>of_int \<lfloor>z * 10 ^ s + 1 / 2\<rfloor> / 10 ^ s - z\<bar> \<le> 1 / (2 * 10 ^ s)" for z :: real
  proof -
    have "of_int \<lfloor>z * 10 ^ s + 1 / 2\<rfloor> / 10 ^ s - z
            = (of_int \<lfloor>z * 10 ^ s + 1 / 2\<rfloor> - z * 10 ^ s) / 10 ^ s"
      by (simp add: field_simps)
    then have "\<bar>of_int \<lfloor>z * 10 ^ s + 1 / 2\<rfloor> / 10 ^ s - z\<bar>
            = \<bar>of_int \<lfloor>z * 10 ^ s + 1 / 2\<rfloor> - z * 10 ^ s\<bar> / 10 ^ s"
      by (simp add: abs_divide)
    also have "\<dots> \<le> (1 / 2) / 10 ^ s"
      by (rule divide_right_mono [OF close]) simp
    finally show ?thesis by simp
  qed
  show ?thesis
  proof (cases "0 \<le> x")
    case True
    then show ?thesis using scale [of x] by (simp add: round_var_nonneg)
  next
    case False
    then have neg: "x < 0" by simp
    have "\<bar>round_var x s - x\<bar> = \<bar>of_int \<lfloor>- x * 10 ^ s + 1 / 2\<rfloor> / 10 ^ s - (- x)\<bar>"
      by (simp add: round_var_neg neg)
    then show ?thesis using scale [of "- x"] by simp
  qed
qed

lemma select_div_scale_ge: "snd var1 \<le> 1000 \<Longrightarrow> snd var1 \<le> select_div_scale var1 var2"
  by (simp add: select_div_scale_def Let_def)

lemma select_div_scale_le: "select_div_scale var1 var2 \<le> 1000"
  by (simp add: select_div_scale_def Let_def)

lemma decimal_scale_up:
  assumes "real_of_int \<lfloor>w * 100\<rfloor> = w * 100" and "2 \<le> s"
  shows "\<exists>z. w * 10 ^ s = real_of_int z"
proof -
  obtain k where k: "s = 2 + k" using assms(2) by (metis le_Suc_ex)
  have "w * 10 ^ s = (w * 100) * 10 ^ k" by (simp add: k power_add)
  also have "\<dots> = real_of_int (\<lfloor>w * 100\<rfloor> * 10 ^ k)" by (simp add: assms(1))
  finally show ?thesis by blast
qed

subsubsection \<open>The aggregates\<close>

lemma sql_max_Max: "ws \<noteq> [] \<Longrightarrow> sql_max ws = Some (Max (set ws))"
  by (cases ws) (simp_all add: sql_max_def Max.set_eq_fold [symmetric])

lemma sql_min_Min: "ws \<noteq> [] \<Longrightarrow> sql_min ws = Some (Min (set ws))"
  by (cases ws) (simp_all add: sql_min_def Min.set_eq_fold [symmetric])

lemma sql_avg_rounded:
  "ws \<noteq> [] \<Longrightarrow>
   sql_avg ws = Some (round_var (sum_list ws / real (length ws))
                       (select_div_scale (sum_list ws, weight_dscale) (real (length ws), 0)))"
  by (cases ws) (simp_all add: sql_avg_def numeric_div_def Let_def)

lemma sum_list_upper: "(\<And>w. w \<in> set ws \<Longrightarrow> w \<le> (b::real)) \<Longrightarrow> sum_list ws \<le> real (length ws) * b"
  by (induction ws) (auto simp: algebra_simps intro: add_mono)

lemma sum_list_lower: "(\<And>w. w \<in> set ws \<Longrightarrow> (b::real) \<le> w) \<Longrightarrow> real (length ws) * b \<le> sum_list ws"
  by (induction ws) (auto simp: algebra_simps intro: add_mono)

lemma mean_le_Max:
  assumes "ws \<noteq> []"
  shows "sum_list ws / real (length ws) \<le> Max (set ws)"
proof -
  have "sum_list ws \<le> real (length ws) * Max (set ws)"
    by (rule sum_list_upper) simp
  moreover have "0 < real (length ws)" using assms by simp
  ultimately show ?thesis by (simp add: pos_divide_le_eq mult.commute)
qed

lemma Min_le_mean:
  assumes "ws \<noteq> []"
  shows "Min (set ws) \<le> sum_list ws / real (length ws)"
proof -
  have "real (length ws) * Min (set ws) \<le> sum_list ws"
    by (rule sum_list_lower) simp
  moreover have "0 < real (length ws)" using assms by simp
  ultimately show ?thesis by (simp add: pos_le_divide_eq mult.commute)
qed

lemma find_first_row:
  "find (\<lambda>(rn, ph). rn = (1::nat)) (enumerate 1 xs) = (case xs of [] \<Rightarrow> None | x # _ \<Rightarrow> Some (1, x))"
  by (cases xs) simp_all

lemma progress_data_length:
  "length (progress_data tbl eid s e) = length (selected_rows tbl eid s e)"
  by (simp add: progress_data_def)

lemma progress_data_weights_set:
  "set (map (\<lambda>(rn, ph). ph_weight ph) (progress_data tbl eid s e))
     = ph_weight ` set (selected_rows tbl eid s e)"
proof -
  have "map (\<lambda>(rn, ph). ph_weight ph) (enumerate 1 xs) = map ph_weight xs" for xs :: "ProgressHistory list"
    by (rule nth_equalityI) (simp_all add: nth_enumerate_eq)
  then show ?thesis by (simp add: progress_data_def)
qed

lemma progress_data_weights_sum:
  "sum_list (map (\<lambda>(rn, ph). ph_weight ph) (progress_data tbl eid s e))
     = sum_list (map ph_weight (sort_key (\<lambda>ph. - ph_created_at ph) (selected_rows tbl eid s e)))"
proof -
  have "map (\<lambda>(rn, ph). ph_weight ph) (enumerate 1 xs) = map ph_weight xs" for xs :: "ProgressHistory list"
    by (rule nth_equalityI) (simp_all add: nth_enumerate_eq)
  then show ?thesis by (simp add: progress_data_def)
qed

lemma sum_list_insort_key:
  "sum_list (map f (insort_key k x xs)) = (f x :: real) + sum_list (map f xs)"
  by (induction xs) (auto simp: algebra_simps)

lemma sum_list_sort_key: "sum_list (map f (sort_key k xs)) = (sum_list (map f xs) :: real)"
  by (induction xs) (simp_all add: sum_list_insort_key)

lemma sort_key_desc_hd:
  assumes "xs \<noteq> []"
  shows "\<exists>x rest. sort_key (\<lambda>ph. - ph_created_at ph) xs = x # rest \<and> x \<in> set xs
           \<and> (\<forall>y\<in>set xs. ph_created_at y \<le> ph_created_at x)"
proof -
  let ?ys = "sort_key (\<lambda>ph. - ph_created_at ph) xs"
  have ne: "?ys \<noteq> []" using assms by (metis length_sort length_0_conv)
  then obtain x rest where ys: "?ys = x # rest" by (cases ?ys) auto
  have "sorted (map (\<lambda>ph. - ph_created_at ph) ?ys)" by (rule sorted_sort_key)
  then have "\<forall>y\<in>set rest. - ph_created_at x \<le> - ph_created_at y"
    by (simp add: ys)
  moreover have "set ?ys = set xs" by simp
  ultimately have "\<forall>y\<in>set xs. ph_created_at y \<le> ph_created_at x"
    using ys by (metis insert_iff list.simps(15) neg_le_iff_le order_refl)
  moreover have "x \<in> set xs" using ys \<open>set ?ys = set xs\<close> by (metis list.set_intros(1))
  ultimately show ?thesis using ys by blast
qed

lemma latest_weight_first_row:
  "latest_weight (stats_cte (progress_data tbl eid s e))
     = (case sort_key (\<lambda>ph. - ph_created_at ph) (selected_rows tbl eid s e) of
          [] \<Rightarrow> None | x # _ \<Rightarrow> Some (ph_weight x))"
  by (simp add: stats_cte_def Let_def progress_data_def find_first_row split: list.split)

lemma stats_cte_nonempty:
  assumes "selected_rows tbl eid s e \<noteq> []"
  shows "\<exists>lt. stats_cte (progress_data tbl eid s e)
          = \<lparr> total_sessions = int (length (selected_rows tbl eid s e)),
              max_weight = Some (Max (ph_weight ` set (selected_rows tbl eid s e))),
              min_weight = Some (Min (ph_weight ` set (selected_rows tbl eid s e))),
              avg_weight = Some (round_var
                (sum_list (map ph_weight (selected_rows tbl eid s e))
                   / real (length (selected_rows tbl eid s e)))
                (select_div_scale
                   (sum_list (map ph_weight (selected_rows tbl eid s e)), weight_dscale)
                   (real (length (selected_rows tbl eid s e)), 0))),
              latest_weight = Some lt \<rparr>
        \<and> (\<exists>ph\<in>set (selected_rows tbl eid s e). ph_weight ph = lt
              \<and> (\<forall>ph'\<in>set (selected_rows tbl eid s e). ph_created_at ph' \<le> ph_created_at ph))"
proof -
  let ?rows = "selected_rows tbl eid s e"
  let ?pd = "progress_data tbl eid s e"
  let ?ws = "map (\<lambda>(rn, ph). ph_weight ph) ?pd"
  have len: "length ?ws = length ?rows" by (simp add: progress_data_length)
  then have ne: "?ws \<noteq> []" using assms by (metis length_0_conv)
  obtain x rest where x: "sort_key (\<lambda>ph. - ph_created_at ph) ?rows = x # rest" "x \<in> set ?rows"
      "\<forall>y\<in>set ?rows. ph_created_at y \<le> ph_created_at x"
    using sort_key_desc_hd [OF assms] by blast
  have lt: "map_option (\<lambda>(rn, ph). ph_weight ph) (find (\<lambda>(rn, ph). rn = 1) ?pd)
              = Some (ph_weight x)"
    by (simp add: progress_data_def find_first_row x(1))
  have sum: "sum_list ?ws = sum_list (map ph_weight ?rows)"
    by (simp only: progress_data_weights_sum sum_list_sort_key)
  have mx: "sql_max ?ws = Some (Max (ph_weight ` set ?rows))"
    using sql_max_Max [OF ne] by (simp only: progress_data_weights_set)
  have mn: "sql_min ?ws = Some (Min (ph_weight ` set ?rows))"
    using sql_min_Min [OF ne] by (simp only: progress_data_weights_set)
  have av: "sql_avg ?ws = Some (round_var (sum_list (map ph_weight ?rows) / real (length ?rows))
              (select_div_scale (sum_list (map ph_weight ?rows), weight_dscale)
                 (real (length ?rows), 0)))"
    using sql_avg_rounded [OF ne] by (simp only: sum len)
  have "stats_cte ?pd = \<lparr> total_sessions = int (length ?rows),
              max_weight = Some (Max (ph_weight ` set ?rows)),
              min_weight = Some (Min (ph_weight ` set ?rows)),
              avg_weight = Some (round_var (sum_list (map ph_weight ?rows) / real (length ?rows))
                (select_div_scale (sum_list (map ph_weight ?rows), weight_dscale)
                   (real (length ?rows), 0))),
              latest_weight = Some (ph_weight x) \<rparr>"
    by (simp only: stats_cte_def Let_def mx mn av lt progress_data_length)
  with x(2,3) show ?thesis by blast
qed

lemma stats_cte_empty:
  assumes "selected_rows tbl eid s e = []"
  shows "stats_cte (progress_data tbl eid s e)
          = \<lparr> total_sessions = 0, max_weight = None, min_weight = None, avg_weight = None,
              latest_weight = None \<rparr>"
  using assms by (simp add: stats_cte_def progress_data_def sql_max_def sql_min_def sql_avg_def)

lemma image_weights_list: "ph_weight ` set rows = set (map ph_weight rows)"
  by simp

lemma stats_cte_total:
  "total_sessions (stats_cte (progress_data tbl eid s e)) = int (length (selected_rows tbl eid s e))"
  by (simp add: stats_cte_def Let_def progress_data_length)


lemmas stats_eval = get_exercise_progress_stats_def stats_cte_def progress_data_def
  selected_rows_def in_date_range_def observation_def sql_max_def sql_min_def sql_avg_def
  stats.extend_def numeric_div_def select_div_scale_def nbase_weight_units round_var_def
  weight_dscale_def

lemma stats_example:
  "get_exercise_progress_stats
     [observation ''bench'' 60 1, observation ''bench'' 65 2, observation ''bench'' 70 3]
     ''bench'' None None
   = Inr \<lparr> total_sessions = 3, max_weight = Some 70, min_weight = Some 60,
           avg_weight = Some 65, latest_weight = Some 70,
           weight_progression = Some 16.666666666666666667 \<rparr>"
  by (simp add: stats_eval)

lemma selected_two_rising: "selected_rows two_rising ''squat'' None None = two_rising"
  by (simp add: two_rising_def selected_rows_def in_date_range_def observation_def)

lemma stats_two_rising:
  "get_exercise_progress_stats two_rising ''squat'' None None
   = Inr \<lparr> total_sessions = 2, max_weight = Some 100, min_weight = Some 80,
           avg_weight = Some 90, latest_weight = Some 100, weight_progression = Some 25 \<rparr>"
  by (simp add: stats_eval two_rising_def)

lemma stats_three_sessions:
  "get_exercise_progress_stats three_sessions ''row'' None None
   = Inr \<lparr> total_sessions = 3, max_weight = Some 55, min_weight = Some 40,
           avg_weight = Some 48.3333333333333333, latest_weight = Some 55,
           weight_progression = Some 37.5 \<rparr>"
  by (simp add: stats_eval three_sessions_def)

text \<open>
  Claim C3, as the code has it. With the selected observations (after the optional
  inclusive date range) numbering 0 or 1, the query returns progression 0. With more than
  one observation and a minimum weight other than zero, it returns the quotient
  \<open>(latest - min) / min\<close>, rounded half away from zero to the scale that \<open>NUMERIC\<close> division
  selects (at least 2 digits after the point, so the quotient is off by at most half a
  unit of that scale), times 100; \<open>latest\<close> is the weight of an observation with the
  greatest timestamp. The observations 60, 65, 70 recorded in that order give
  16.666666666666666667, which is 16.7 to one decimal place.
\<close>

theorem weight_progression_formula:
  "(length (selected_rows tbl eid s e) \<le> 1 \<longrightarrow>
      (\<exists>r. get_exercise_progress_stats tbl eid s e = Inr r
           \<and> total_sessions r = int (length (selected_rows tbl eid s e))
           \<and> weight_progression r = Some 0))
   \<and> (1 < length (selected_rows tbl eid s e)
        \<and> Min (ph_weight ` set (selected_rows tbl eid s e)) \<noteq> 0 \<longrightarrow>
      (\<exists>r l m q rscale. get_exercise_progress_stats tbl eid s e = Inr r
           \<and> total_sessions r = int (length (selected_rows tbl eid s e))
           \<and> latest_weight r = Some l
           \<and> (\<exists>ph\<in>set (selected_rows tbl eid s e). ph_weight ph = l
                \<and> (\<forall>ph'\<in>set (selected_rows tbl eid s e).
                      ph_created_at ph' \<le> ph_created_at ph))
           \<and> min_weight r = Some m
           \<and> m = Min (ph_weight ` set (selected_rows tbl eid s e))
           \<and> rscale = select_div_scale (l - m, weight_dscale) (m, weight_dscale)
           \<and> 2 \<le> rscale
           \<and> q = round_var ((l - m) / m) rscale
           \<and> \<bar>q - (l - m) / m\<bar> \<le> 1 / (2 * 10 ^ rscale)
           \<and> weight_progression r = Some (q * 100)))
   \<and> (\<exists>r. get_exercise_progress_stats
             [observation ''bench'' 60 1, observation ''bench'' 65 2, observation ''bench'' 70 3]
             ''bench'' None None = Inr r
          \<and> weight_progression r = Some 16.666666666666666667
          \<and> \<bar>16.666666666666666667 - 16.7\<bar> < (0.05 :: real))"
proof (intro conjI impI)
  assume "length (selected_rows tbl eid s e) \<le> 1"
  then have "\<not> 1 < total_sessions (stats_cte (progress_data tbl eid s e))"
    by (simp add: stats_cte_total)
  then show "\<exists>r. get_exercise_progress_stats tbl eid s e = Inr r
           \<and> total_sessions r = int (length (selected_rows tbl eid s e))
           \<and> weight_progression r = Some 0"
    by (simp add: get_exercise_progress_stats_def Let_def stats.extend_def stats_cte_total)
next
  let ?rows = "selected_rows tbl eid s e"
  let ?m = "Min (ph_weight ` set ?rows)"
  assume a: "1 < length ?rows \<and> ?m \<noteq> 0"
  then have ne: "?rows \<noteq> []" by auto
  from stats_cte_nonempty [OF ne] obtain lt where
    st: "stats_cte (progress_data tbl eid s e)
          = \<lparr> total_sessions = int (length ?rows),
              max_weight = Some (Max (ph_weight ` set ?rows)),
              min_weight = Some ?m,
              avg_weight = Some (round_var (sum_list (map ph_weight ?rows) / real (length ?rows))
                (select_div_scale (sum_list (map ph_weight ?rows), weight_dscale)
                   (real (length ?rows), 0))),
              latest_weight = Some lt \<rparr>"
    and lt: "\<exists>ph\<in>set ?rows. ph_weight ph = lt
              \<and> (\<forall>ph'\<in>set ?rows. ph_created_at ph' \<le> ph_created_at ph)"
    by blast
  let ?rscale = "select_div_scale (lt - ?m, weight_dscale) (?m, weight_dscale)"
  let ?q = "round_var ((lt - ?m) / ?m) ?rscale"
  have ret: "get_exercise_progress_stats tbl eid s e
          = Inr (stats.extend (stats_cte (progress_data tbl eid s e))
                  \<lparr> weight_progression = Some (?q * 100) \<rparr>)"
    using a unfolding get_exercise_progress_stats_def Let_def st
    by (simp add: numeric_div_def Let_def)
  have sc: "2 \<le> ?rscale"
    using select_div_scale_ge [of "(lt - ?m, weight_dscale)" "(?m, weight_dscale)"]
    by (simp add: weight_dscale_def)
  have err: "\<bar>?q - (lt - ?m) / ?m\<bar> \<le> 1 / (2 * 10 ^ ?rscale)"
    by (rule round_var_error)
  show "\<exists>r l m q rscale. get_exercise_progress_stats tbl eid s e = Inr r
           \<and> total_sessions r = int (length ?rows)
           \<and> latest_weight r = Some l
           \<and> (\<exists>ph\<in>set ?rows. ph_weight ph = l
                \<and> (\<forall>ph'\<in>set ?rows. ph_created_at ph' \<le> ph_created_at ph))
           \<and> min_weight r = Some m
           \<and> m = ?m
           \<and> rscale = select_div_scale (l - m, weight_dscale) (m, weight_dscale)
           \<and> 2 \<le> rscale
           \<and> q = round_var ((l - m) / m) rscale
           \<and> \<bar>q - (l - m) / m\<bar> \<le> 1 / (2 * 10 ^ rscale)
           \<and> weight_progression r = Some (q * 100)"
    apply (rule exI [of _ "stats.extend (stats_cte (progress_data tbl eid s e))
                  \<lparr> weight_progression = Some (?q * 100) \<rparr>"])
    apply (rule exI [of _ lt])
    apply (rule exI [of _ ?m])
    apply (rule exI [of _ ?q])
    apply (rule exI [of _ ?rscale])
    using ret lt sc err by (simp add: st stats.extend_def)
next
  show "\<exists>r. get_exercise_progress_stats
             [observation ''bench'' 60 1, observation ''bench'' 65 2, observation ''bench'' 70 3]
             ''bench'' None None = Inr r
          \<and> weight_progression r = Some 16.666666666666666667
          \<and> \<bar>16.666666666666666667 - 16.7\<bar> < (0.05 :: real)"
    by (simp add: stats_example)
qed

theorem weight_progression_formula_witness:
  "1 < length (selected_rows two_rising ''squat'' None None)
   \<and> Min (ph_weight ` set (selected_rows two_rising ''squat'' None None)) \<noteq> 0
   \<and> (\<exists>r l m q rscale. get_exercise_progress_stats two_rising ''squat'' None None = Inr r
          \<and> total_sessions r = 2 \<and> latest_weight r = Some l \<and> min_weight r = Some m
          \<and> rscale = select_div_scale (l - m, weight_dscale) (m, weight_dscale)
          \<and> q = round_var ((l - m) / m) rscale
          \<and> weight_progression r = Some (q * 100)
          \<and> l = 100 \<and> m = 80 \<and> rscale = 20 \<and> q = 1 / 4 \<and> weight_progression r = Some 25)
   \<and> length (selected_rows two_rising ''squat'' (Some 15) None) \<le> 1
   \<and> (\<exists>r. get_exercise_progress_stats two_rising ''squat'' (Some 15) None = Inr r
          \<and> total_sessions r = 1 \<and> weight_progression r = Some 0)"
proof -
  have h1: "1 < length (selected_rows two_rising ''squat'' None None)
            \<and> Min (ph_weight ` set (selected_rows two_rising ''squat'' None None)) \<noteq> 0"
    by (simp add: selected_two_rising) (simp add: two_rising_def observation_def)
  have h2: "length (selected_rows two_rising ''squat'' (Some 15) None) \<le> 1"
    by (simp add: two_rising_def selected_rows_def in_date_range_def observation_def)
  have n2: "int (length (selected_rows two_rising ''squat'' (Some 15) None)) = 1"
    by (simp add: two_rising_def selected_rows_def in_date_range_def observation_def)
  from weight_progression_formula [of two_rising "''squat''" None None] h1
  obtain r l m q rscale where r: "get_exercise_progress_stats two_rising ''squat'' None None = Inr r"
      "latest_weight r = Some l" "min_weight r = Some m"
      "rscale = select_div_scale (l - m, weight_dscale) (m, weight_dscale)"
      "q = round_var ((l - m) / m) rscale"
      "weight_progression r = Some (q * 100)"
    by blast
  from r(1) have r_eq: "r = \<lparr> total_sessions = 2, max_weight = Some 100, min_weight = Some 80,
           avg_weight = Some 90, latest_weight = Some 100, weight_progression = Some 25 \<rparr>"
    by (simp add: stats_two_rising)
  have l: "l = 100" and m: "m = 80" using r(2,3) r_eq by simp_all
  have sc: "rscale = 20"
    by (simp add: r(4) l m select_div_scale_def nbase_weight_units weight_dscale_def)
  have q: "q = 1 / 4" by (simp add: r(5) l m sc round_var_def)
  have c1: "\<exists>r l m q rscale. get_exercise_progress_stats two_rising ''squat'' None None = Inr r
          \<and> total_sessions r = 2 \<and> latest_weight r = Some l \<and> min_weight r = Some m
          \<and> rscale = select_div_scale (l - m, weight_dscale) (m, weight_dscale)
          \<and> q = round_var ((l - m) / m) rscale
          \<and> weight_progression r = Some (q * 100)
          \<and> l = 100 \<and> m = 80 \<and> rscale = 20 \<and> q = 1 / 4 \<and> weight_progression r = Some 25"
    apply (rule exI [of _ r], rule exI [of _ l], rule exI [of _ m], rule exI [of _ q],
        rule exI [of _ rscale])
    using r l m sc q r_eq by simp
  from weight_progression_formula [of two_rising "''squat''" "Some 15" None] h2 n2
  have c2: "\<exists>r. get_exercise_progress_stats two_rising ''squat'' (Some 15) None = Inr r
          \<and> total_sessions r = 1 \<and> weight_progression r = Some 0"
    by auto
  from h1 h2 c1 c2 show ?thesis by blast
qed

text \<open>
  Claim C3 as written, for every sequence, fails where the minimum is zero: with two
  observations of weights 0 and 5 the division raises and the call returns no record.
\<close>

theorem weight_progression_zero_minimum:
  "get_exercise_progress_stats [observation ''dips'' 0 1, observation ''dips'' 5 2]
     ''dips'' None None = Inl Division_by_zero"
  by (simp add: stats_eval)

text \<open>
  Claim C5. When no observation is selected the query divides nothing and returns the
  record with count 0, progression 0, and \<open>max\<close>, \<open>min\<close>, mean and \<open>latest\<close> NULL.
\<close>

theorem empty_statistics:
  assumes "selected_rows tbl eid s e = []"
  shows "get_exercise_progress_stats tbl eid s e
         = Inr \<lparr> total_sessions = 0, max_weight = None, min_weight = None,
                 avg_weight = None, latest_weight = None, weight_progression = Some 0 \<rparr>"
  by (simp add: get_exercise_progress_stats_def Let_def stats_cte_empty [OF assms]
      stats.extend_def)

theorem empty_statistics_witness:
  "selected_rows [] ''bench'' None None = []
   \<and> get_exercise_progress_stats [] ''bench'' None None
       = Inr \<lparr> total_sessions = 0, max_weight = None, min_weight = None,
               avg_weight = None, latest_weight = None, weight_progression = Some 0 \<rparr>
   \<and> selected_rows two_rising ''squat'' (Some 30) (Some 40) = []
   \<and> get_exercise_progress_stats two_rising ''squat'' (Some 30) (Some 40)
       = Inr \<lparr> total_sessions = 0, max_weight = None, min_weight = None,
               avg_weight = None, latest_weight = None, weight_progression = Some 0 \<rparr>"
proof -
  have h1: "selected_rows [] ''bench'' None None = []"
    by (simp add: selected_rows_def)
  have h2: "selected_rows two_rising ''squat'' (Some 30) (Some 40) = []"
    by (simp add: two_rising_def selected_rows_def in_date_range_def observation_def)
  show ?thesis
    using h1 h2 empty_statistics [OF h1] empty_statistics [OF h2] by simp
qed

lemma round_var_decimal:
  assumes "decimal_10_2 w" and "2 \<le> s"
  shows "round_var w s = w"
proof -
  from assms(1) have "real_of_int \<lfloor>w * 100\<rfloor> = w * 100" by (simp add: decimal_10_2_def)
  from decimal_scale_up [OF this assms(2)] obtain z where "w * 10 ^ s = real_of_int z" by blast
  then show ?thesis by (rule round_var_exact)
qed

text \<open>
  Claim C6. For every non-empty selection of observations whose weights are values of the
  column's type, the statistics computed are the maximum and the minimum of the weights
  and their arithmetic mean rounded by \<open>NUMERIC\<close> division (to at least 2 digits after the
  point, so off by at most half a unit of that scale), with \<open>max \<ge> mean \<ge> min\<close>, and
  \<open>latest\<close> is the weight of an observation whose timestamp is the greatest. The final
  \<open>SELECT\<close> hands these four values on unchanged in every row it returns.
\<close>

theorem statistics_order_and_latest:
  assumes "selected_rows tbl eid s e \<noteq> []"
    and "list_all (\<lambda>ph. decimal_10_2 (ph_weight ph)) (selected_rows tbl eid s e)"
  shows "\<exists>mx mn av lt rscale.
           stats_cte (progress_data tbl eid s e)
             = \<lparr> total_sessions = int (length (selected_rows tbl eid s e)),
                 max_weight = Some mx, min_weight = Some mn, avg_weight = Some av,
                 latest_weight = Some lt \<rparr>
         \<and> mx = Max (ph_weight ` set (selected_rows tbl eid s e))
         \<and> mn = Min (ph_weight ` set (selected_rows tbl eid s e))
         \<and> rscale = select_div_scale
                      (sum_list (map ph_weight (selected_rows tbl eid s e)), weight_dscale)
                      (real (length (selected_rows tbl eid s e)), 0)
         \<and> 2 \<le> rscale
         \<and> av = round_var (sum_list (map ph_weight (selected_rows tbl eid s e))
                             / real (length (selected_rows tbl eid s e))) rscale
         \<and> \<bar>av - sum_list (map ph_weight (selected_rows tbl eid s e))
                   / real (length (selected_rows tbl eid s e))\<bar> \<le> 1 / (2 * 10 ^ rscale)
         \<and> mx \<ge> av \<and> av \<ge> mn
         \<and> (\<exists>ph\<in>set (selected_rows tbl eid s e). ph_weight ph = lt
              \<and> (\<forall>ph'\<in>set (selected_rows tbl eid s e). ph_created_at ph' \<le> ph_created_at ph))
         \<and> (\<forall>r. get_exercise_progress_stats tbl eid s e = Inr r \<longrightarrow>
               max_weight r = Some mx \<and> min_weight r = Some mn \<and> avg_weight r = Some av
               \<and> latest_weight r = Some lt)
         \<and> ((\<exists>r. get_exercise_progress_stats tbl eid s e = Inr r)
              \<or> (1 < length (selected_rows tbl eid s e) \<and> mn = 0))"
proof -
  let ?rows = "selected_rows tbl eid s e"
  let ?ws = "map ph_weight ?rows"
  let ?mx = "Max (ph_weight ` set ?rows)" and ?mn = "Min (ph_weight ` set ?rows)"
  let ?mean = "sum_list ?ws / real (length ?rows)"
  let ?rscale = "select_div_scale (sum_list ?ws, weight_dscale) (real (length ?rows), 0)"
  let ?av = "round_var ?mean ?rscale"
  from stats_cte_nonempty [OF assms(1)] obtain lt where
    st: "stats_cte (progress_data tbl eid s e)
          = \<lparr> total_sessions = int (length ?rows), max_weight = Some ?mx,
              min_weight = Some ?mn, avg_weight = Some ?av, latest_weight = Some lt \<rparr>"
    and lt: "\<exists>ph\<in>set ?rows. ph_weight ph = lt
              \<and> (\<forall>ph'\<in>set ?rows. ph_created_at ph' \<le> ph_created_at ph)"
    by blast
  have ws: "?ws \<noteq> []" using assms(1) by simp
  have sc: "2 \<le> ?rscale"
    using select_div_scale_ge [of "(sum_list ?ws, weight_dscale)" "(real (length ?rows), 0)"]
    by (simp add: weight_dscale_def)
  have dec: "decimal_10_2 w" if "w \<in> ph_weight ` set ?rows" for w
    using assms(2) that by (auto simp: list_all_iff)
  have fin: "finite (ph_weight ` set ?rows)" and ne: "ph_weight ` set ?rows \<noteq> {}"
    using assms(1) by simp_all
  have mx_in: "?mx \<in> ph_weight ` set ?rows" by (rule Max_in [OF fin ne])
  have mn_in: "?mn \<in> ph_weight ` set ?rows" by (rule Min_in [OF fin ne])
  have "?mean \<le> ?mx"
    using mean_le_Max [OF ws] by (simp only: image_weights_list length_map)
  then have "?av \<le> round_var ?mx ?rscale" by (rule round_var_mono)
  then have up: "?av \<le> ?mx" by (simp only: round_var_decimal [OF dec [OF mx_in] sc])
  have "?mn \<le> ?mean"
    using Min_le_mean [OF ws] by (simp only: image_weights_list length_map)
  then have "round_var ?mn ?rscale \<le> ?av" by (rule round_var_mono)
  then have lo: "?mn \<le> ?av" by (simp only: round_var_decimal [OF dec [OF mn_in] sc])
  have err: "\<bar>?av - ?mean\<bar> \<le> 1 / (2 * 10 ^ ?rscale)" by (rule round_var_error)
  have ret: "\<forall>r. get_exercise_progress_stats tbl eid s e = Inr r \<longrightarrow>
               max_weight r = Some ?mx \<and> min_weight r = Some ?mn \<and> avg_weight r = Some ?av
               \<and> latest_weight r = Some lt"
    unfolding get_exercise_progress_stats_def Let_def st
    by (auto simp: stats.extend_def numeric_div_def Let_def split: if_splits)
  have tot: "(\<exists>r. get_exercise_progress_stats tbl eid s e = Inr r)
              \<or> (1 < length ?rows \<and> ?mn = 0)"
    unfolding get_exercise_progress_stats_def Let_def st
    by (auto simp: stats.extend_def numeric_div_def Let_def split: if_splits)
  show ?thesis
    apply (rule exI [of _ ?mx], rule exI [of _ ?mn], rule exI [of _ ?av], rule exI [of _ lt],
        rule exI [of _ ?rscale])
    using st lt sc up lo err ret tot by simp
qed

theorem statistics_order_and_latest_witness:
  "selected_rows three_sessions ''row'' None None \<noteq> []
   \<and> list_all (\<lambda>ph. decimal_10_2 (ph_weight ph)) (selected_rows three_sessions ''row'' None None)
   \<and> (\<exists>mx mn av lt rscale.
         stats_cte (progress_data three_sessions ''row'' None None)
           = \<lparr> total_sessions = 3, max_weight = Some mx, min_weight = Some mn,
               avg_weight = Some av, latest_weight = Some lt \<rparr>
         \<and> rscale = select_div_scale
                      (sum_list (map ph_weight (selected_rows three_sessions ''row'' None None)),
                       weight_dscale)
                      (real (length (selected_rows three_sessions ''row'' None None)), 0)
         \<and> mx = 55 \<and> mn = 40 \<and> rscale = 16 \<and> av = 48.3333333333333333 \<and> lt = 55
         \<and> mx \<ge> av \<and> av \<ge> mn)"
proof -
  have sel: "selected_rows three_sessions ''row'' None None
              = [observation ''row'' 40 5, observation ''row'' 55 30, observation ''row'' 50 12]"
    by (simp add: three_sessions_def selected_rows_def in_date_range_def observation_def)
  then have h: "selected_rows three_sessions ''row'' None None \<noteq> []" by simp
  have g: "list_all (\<lambda>ph. decimal_10_2 (ph_weight ph))
             (selected_rows three_sessions ''row'' None None)"
    by (simp add: sel observation_def decimal_10_2_def)
  have ev: "stats_cte (progress_data three_sessions ''row'' None None)
           = \<lparr> total_sessions = 3, max_weight = Some 55, min_weight = Some 40,
               avg_weight = Some 48.3333333333333333, latest_weight = Some 55 \<rparr>"
    by (simp add: stats_eval three_sessions_def)
  have sc: "select_div_scale
              (sum_list (map ph_weight (selected_rows three_sessions ''row'' None None)),
               weight_dscale)
              (real (length (selected_rows three_sessions ''row'' None None)), 0) = 16"
    by (simp add: sel observation_def select_div_scale_def nbase_weight_units weight_dscale_def)
  from statistics_order_and_latest [OF h g] obtain mx mn av lt rscale where
    "stats_cte (progress_data three_sessions ''row'' None None)
       = \<lparr> total_sessions = int (length (selected_rows three_sessions ''row'' None None)),
           max_weight = Some mx, min_weight = Some mn, avg_weight = Some av,
           latest_weight = Some lt \<rparr>"
    "rscale = select_div_scale
                (sum_list (map ph_weight (selected_rows three_sessions ''row'' None None)),
                 weight_dscale)
                (real (length (selected_rows three_sessions ''row'' None None)), 0)"
    "mx \<ge> av" "av \<ge> mn"
    by blast
  with ev sc have "mx = 55 \<and> mn = 40 \<and> rscale = 16 \<and> av = 48.3333333333333333 \<and> lt = 55
      \<and> mx \<ge> av \<and> av \<ge> mn
      \<and> rscale = select_div_scale
                (sum_list (map ph_weight (selected_rows three_sessions ''row'' None None)),
                 weight_dscale)
                (real (length (selected_rows three_sessions ''row'' None None)), 0)"
    by simp
  with ev have "\<exists>mx mn av lt rscale.
         stats_cte (progress_data three_sessions ''row'' None None)
           = \<lparr> total_sessions = 3, max_weight = Some mx, min_weight = Some mn,
               avg_weight = Some av, latest_weight = Some lt \<rparr>
         \<and> rscale = select_div_scale
                      (sum_list (map ph_weight (selected_rows three_sessions ''row'' None None)),
                       weight_dscale)
                      (real (length (selected_rows three_sessions ''row'' None None)), 0)
         \<and> mx = 55 \<and> mn = 40 \<and> rscale = 16 \<and> av = 48.3333333333333333 \<and> lt = 55
         \<and> mx \<ge> av \<and> av \<ge> mn"
    by blast
  with h g show ?thesis by blast
qed

subsection \<open>The session cache\<close>

lemmas store_defs = recordWeight_def completeWorkoutSession_def startWorkoutSession_def
  loadCurrentSession_def clearSession_def completeSet_def issue_def updatedExercise_def
  Map_get_def Map_set_def Map_values_def new_Map_def session_key_def has_weight_def
  initial_store_def empty_remote_def

lemma active_world_eval:
  "active_world =
     (\<lparr> currentSession = Some session1,
        sessionExercises = JsMap [(''bench-0'', bench_entry 1)],
        isLoading = False, error = None \<rparr>,
      \<lparr> progress_history =
          [\<lparr> ph_id = ''ph1'', ph_exercise_id = ''bench'', ph_weight = 50, ph_notes = None,
             ph_created_at = 110 \<rparr>],
        workout_sessions = [session1], session_exercises = [],
        issued = [Insert_workout_sessions ''push-day'', Insert_progress_history ''bench'' 50] \<rparr>)"
  by (simp add: active_world_def store_defs session1_def bench_entry_def digits.simps Let_def)

lemmas example_defs = active_world_eval session1_def bench_entry_def observation_def

lemma set_entry_fresh: "k \<notin> fst ` set es \<Longrightarrow> set_entry k v es = es @ [(k, v)]"
  by (induction es) auto

lemma set_entry_keys: "fst ` set (set_entry k v es) = insert k (fst ` set es)"
  by (induction es) force+

lemma set_entry_distinct:
  "distinct (map fst es) \<Longrightarrow> distinct (map fst (set_entry k v es))"
  by (induction es) (auto simp: set_entry_keys)

lemma fold_Map_set_append:
  "distinct (map fst (acc @ es)) \<Longrightarrow>
   fold (\<lambda>(k, v) m. Map_set m k v) es (JsMap acc) = JsMap (acc @ es)"
proof (induction es arbitrary: acc)
  case Nil
  then show ?case by simp
next
  case (Cons p es)
  obtain k v where p: "p = (k, v)" by (cases p)
  from Cons.prems have fresh: "k \<notin> fst ` set acc" by (auto simp: p)
  from Cons.prems have "distinct (map fst ((acc @ [(k, v)]) @ es))" by (simp add: p)
  from Cons.IH [OF this] show ?case
    by (simp add: p Map_set_def set_entry_fresh [OF fresh])
qed

lemma new_Map_entries: "distinct_keys m \<Longrightarrow> new_Map (entries m) = m"
  using fold_Map_set_append [of "[]" "entries m"]
  by (simp add: new_Map_def distinct_keys_def)

lemma fold_Map_set_distinct:
  "distinct_keys m \<Longrightarrow> distinct_keys (fold (\<lambda>(k, v) m. Map_set m k v) es m)"
  by (induction es arbitrary: m)
     (auto simp: distinct_keys_def Map_set_def set_entry_distinct)

lemma new_Map_distinct: "distinct_keys (new_Map es)"
  using fold_Map_set_distinct [of "JsMap []" es] by (simp add: new_Map_def distinct_keys_def)

lemma Map_set_distinct: "distinct_keys m \<Longrightarrow> distinct_keys (Map_set m k v)"
  by (simp add: distinct_keys_def Map_set_def set_entry_distinct)

text \<open>Every action leaves a map with distinct keys in the store.\<close>

lemma actions_keep_distinct_keys:
  assumes "distinct_keys (sessionExercises (fst w))"
  shows "distinct_keys (sessionExercises (fst (startWorkoutSession f new_id now dayId w)))"
    and "distinct_keys (sessionExercises (fst (recordWeight f new_id now exerciseId weight setIndex w)))"
    and "distinct_keys (sessionExercises (fst (completeSet exerciseId setIndex reps w)))"
    and "distinct_keys (sessionExercises (fst (completeWorkoutSession f1 f2 now w)))"
    and "distinct_keys (sessionExercises (fst (loadCurrentSession f dayId w)))"
    and "distinct_keys (sessionExercises (fst (clearSession w)))"
  using assms
  by (auto simp: startWorkoutSession_def recordWeight_def completeSet_def
      completeWorkoutSession_def loadCurrentSession_def clearSession_def Let_def
      new_Map_distinct split: option.splits fault.splits)

text \<open>
  Claim C9. Storing the session cache and loading it again gives back the same keyed
  mapping: \<open>partialize\<close> turns the \<open>Map\<close> into its array of entries, and
  \<open>onRehydrateStorage\<close> rebuilds from that array a \<open>Map\<close> with the same keys, in the same
  order, bound to the same entries. (A \<open>Map\<close> never holds a key twice; that is the
  hypothesis, and every action of the store keeps it.)
\<close>

theorem persist_round_trip:
  assumes "distinct_keys (sessionExercises state)"
  shows "onRehydrateStorage (Some (merge_persisted (partialize state) init))
         = Some \<lparr> rehydrated_currentSession = currentSession state,
                  rehydrated_sessionExercises = IsMap (sessionExercises state),
                  rehydrated_isLoading = isLoading init,
                  rehydrated_error = error init \<rparr>"
  by (simp add: onRehydrateStorage_def merge_persisted_def partialize_def
      new_Map_entries [OF assms])

theorem persist_round_trip_witness:
  "distinct_keys (sessionExercises two_entries)
   \<and> onRehydrateStorage (Some (merge_persisted (partialize two_entries) initial_store))
       = Some \<lparr> rehydrated_currentSession = Some session1,
                rehydrated_sessionExercises =
                  IsMap (JsMap [(''bench-0'', bench_entry 2),
                    (''bench-1'', (bench_entry 1)\<lparr> se_reps_completed := Some ''8'' \<rparr>)]),
                rehydrated_isLoading = False, rehydrated_error = None \<rparr>"
proof -
  have h: "distinct_keys (sessionExercises two_entries)"
    by (simp add: two_entries_def distinct_keys_def)
  from persist_round_trip [OF h, of initial_store] h show ?thesis
    by (simp add: two_entries_def initial_store_def)
qed

text \<open>
  Claim C10. Without an active session (\<open>currentSession\<close> is null) \<open>recordWeight\<close> does
  nothing at all: no request is issued, and the cache, the error field and the remote
  store are what they were.
\<close>

theorem recordWeight_without_session:
  assumes "currentSession (fst w) = None"
  shows "recordWeight f new_id now exerciseId weight setIndex w = w"
  using assms by (simp add: recordWeight_def)

theorem recordWeight_without_session_witness:
  "currentSession (fst (initial_store, empty_remote)) = None
   \<and> recordWeight NoFault ''ph1'' 10 ''bench'' 50 0 (initial_store, empty_remote)
       = (initial_store, empty_remote)
   \<and> issued (snd (recordWeight NoFault ''ph1'' 10 ''bench'' 50 0 (initial_store, empty_remote))) = []
   \<and> error (fst (recordWeight NoFault ''ph1'' 10 ''bench'' 50 0 (initial_store, empty_remote))) = None"
proof -
  have h: "currentSession (fst (initial_store, empty_remote)) = None"
    by (simp add: initial_store_def)
  from recordWeight_without_session [OF h] h show ?thesis
    by (simp add: initial_store_def empty_remote_def)
qed

subsection \<open>Failures of the remote writes\<close>

text \<open>
  When the insert is rejected (the \<open>await\<close> raises), \<open>recordWeight\<close> leaves the cache alone
  and sets the error. When the insert resolves with an error, the store ends up exactly as
  after a successful insert.
\<close>

lemma recordWeight_rejected_keeps_cache:
  assumes "currentSession (fst w) = Some cs"
  shows "sessionExercises (fst (recordWeight (Throws msg) new_id now exerciseId weight setIndex w))
           = sessionExercises (fst w)
         \<and> error (fst (recordWeight (Throws msg) new_id now exerciseId weight setIndex w))
           = Some msg"
  using assms by (simp add: recordWeight_def Let_def)

lemma recordWeight_error_result_as_success:
  "fst (recordWeight (ErrorResult msg) new_id now exerciseId weight setIndex w)
     = fst (recordWeight NoFault new_id now exerciseId weight setIndex w)"
  by (simp add: recordWeight_def Let_def split: option.splits)

text \<open>
  Claim C1 says that a failed insert into \<open>progress_history\<close> leaves the cache entry
  unmodified and sets the error. At the input below the insert fails with an error in the
  resolved value (nothing is added to \<open>progress_history\<close>), and yet the entry's
  \<open>sets_completed\<close> goes from 1 to 2 and the error field stays null.
\<close>

theorem recordWeight_error_result_updates_cache:
  "currentSession (fst active_world) = Some session1
   \<and> Map_get (sessionExercises (fst active_world)) (session_key ''bench'' 0)
       = Some (bench_entry 1)
   \<and> Map_get (sessionExercises (fst (recordWeight (ErrorResult ''permission denied'')
               ''ph2'' 120 ''bench'' 50 0 active_world))) (session_key ''bench'' 0)
       = Some (bench_entry 2)
   \<and> error (fst (recordWeight (ErrorResult ''permission denied'')
               ''ph2'' 120 ''bench'' 50 0 active_world)) = None
   \<and> progress_history (snd (recordWeight (ErrorResult ''permission denied'')
               ''ph2'' 120 ''bench'' 50 0 active_world))
       = progress_history (snd active_world)"
  by (simp add: store_defs example_defs digits.simps)

text \<open>
  The same for \<open>completeWorkoutSession\<close>: a rejected bulk insert keeps the session and the
  cache and sets the error.
\<close>

lemma completeWorkoutSession_rejected_keeps_cache:
  assumes "currentSession (fst w) = Some cs"
    and "filter has_weight (Map_values (sessionExercises (fst w))) \<noteq> []"
    and "\<forall>m. f1 \<noteq> Throws m"
  shows "currentSession (fst (completeWorkoutSession f1 (Throws msg) now w)) = Some cs
         \<and> sessionExercises (fst (completeWorkoutSession f1 (Throws msg) now w))
             = sessionExercises (fst w)
         \<and> error (fst (completeWorkoutSession f1 (Throws msg) now w)) = Some msg"
  using assms by (cases f1) (simp_all add: completeWorkoutSession_def Let_def)

text \<open>
  Claim C2 says that a failed bulk insert of \<open>session_exercises\<close> rows surfaces the error
  and leaves \<open>currentSession\<close> and \<open>sessionExercises\<close> as they were. At the input below one
  cached entry has a positive weight, the bulk insert fails with an error in the resolved
  value (no row is stored), and the session and the cache are cleared with the error field
  still null.
\<close>

theorem completeWorkoutSession_error_result_clears_cache:
  "currentSession (fst active_world) = Some session1
   \<and> filter has_weight (Map_values (sessionExercises (fst active_world))) = [bench_entry 1]
   \<and> currentSession (fst (completeWorkoutSession NoFault (ErrorResult ''permission denied'')
        130 active_world)) = None
   \<and> sessionExercises (fst (completeWorkoutSession NoFault (ErrorResult ''permission denied'')
        130 active_world)) = JsMap []
   \<and> error (fst (completeWorkoutSession NoFault (ErrorResult ''permission denied'')
        130 active_world)) = None
   \<and> session_exercises (snd (completeWorkoutSession NoFault (ErrorResult ''permission denied'')
        130 active_world)) = []"
  by (simp add: store_defs example_defs)

subsection \<open>Open sessions per training day\<close>

lemma sort_key_desc_first:
  fixes k :: "'a \<Rightarrow> int"
  assumes "sort_key (\<lambda>a. - k a) xs = x # rest"
  shows "x \<in> set xs \<and> (\<forall>y\<in>set xs. k y \<le> k x)"
proof -
  have "sorted (map (\<lambda>a. - k a) (sort_key (\<lambda>a. - k a) xs))" by (rule sorted_sort_key)
  then have le: "\<forall>y\<in>set rest. k y \<le> k x" by (simp add: assms)
  have "set (sort_key (\<lambda>a. - k a) xs) = set xs" by simp
  then have set: "set xs = insert x (set rest)" by (simp add: assms)
  with le show ?thesis by auto
qed

lemma select_current_latest:
  assumes "select_current tbl dayId = Some s"
  shows "s \<in> set (open_sessions tbl dayId)
         \<and> (\<forall>s'\<in>set (open_sessions tbl dayId). ws_started_at s' \<le> ws_started_at s)"
proof -
  from assms obtain rest where
    "sort_key (\<lambda>a. - ws_started_at a) (open_sessions tbl dayId) = s # rest"
    by (auto simp: select_current_def split: list.splits)
  then show ?thesis by (rule sort_key_desc_first)
qed

lemma filter_map_shrinks:
  "(\<And>x. P (g x) \<Longrightarrow> P x) \<Longrightarrow> length (filter P (map g xs)) \<le> length (filter P xs)"
  by (induction xs) auto

lemma startWorkoutSession_sessions:
  "workout_sessions (snd (startWorkoutSession f new_id now dayId w))
     = (case f of
          NoFault \<Rightarrow> workout_sessions (snd w)
                      @ [\<lparr> ws_id = new_id, ws_day_id = dayId, ws_started_at = now,
                            ws_completed_at = None, ws_notes = None, ws_created_at = now \<rparr>]
        | ErrorResult msg \<Rightarrow> workout_sessions (snd w)
        | Throws msg \<Rightarrow> workout_sessions (snd w))"
  by (simp add: startWorkoutSession_def issue_def Let_def split: fault.splits)

lemma recordWeight_sessions:
  "workout_sessions (snd (recordWeight f new_id now exerciseId weight setIndex w))
     = workout_sessions (snd w)"
  by (simp add: recordWeight_def issue_def Let_def split: option.splits fault.splits)

lemma completeSet_sessions:
  "workout_sessions (snd (completeSet exerciseId setIndex reps w)) = workout_sessions (snd w)"
  by (simp add: completeSet_def Let_def split: option.splits)

lemma loadCurrentSession_sessions:
  "workout_sessions (snd (loadCurrentSession f dayId w)) = workout_sessions (snd w)"
  by (simp add: loadCurrentSession_def issue_def Let_def split: option.splits fault.splits)

lemma clearSession_sessions:
  "workout_sessions (snd (clearSession w)) = workout_sessions (snd w)"
  by (simp add: clearSession_def)

lemma completeWorkoutSession_sessions:
  "workout_sessions (snd (completeWorkoutSession f1 f2 now w))
     = (case currentSession (fst w) of
          None \<Rightarrow> workout_sessions (snd w)
        | Some cs \<Rightarrow>
            (case f1 of
               NoFault \<Rightarrow>
                 map (\<lambda>s. if ws_id s = ws_id cs then s\<lparr> ws_completed_at := Some now \<rparr> else s)
                   (workout_sessions (snd w))
             | ErrorResult msg \<Rightarrow> workout_sessions (snd w)
             | Throws msg \<Rightarrow> workout_sessions (snd w)))"
  by (simp add: completeWorkoutSession_def issue_def Let_def split: option.splits fault.splits)

lemma completeWorkoutSession_open:
  "length (open_sessions (workout_sessions (snd (completeWorkoutSession f1 f2 now w))) d)
     \<le> length (open_sessions (workout_sessions (snd w)) d)"
proof -
  have "length (open_sessions (map (\<lambda>s. if ws_id s = c then s\<lparr> ws_completed_at := Some now \<rparr> else s) tbl) d)
          \<le> length (open_sessions tbl d)" for c tbl
    unfolding open_sessions_def by (rule filter_map_shrinks) (simp split: if_splits)
  then show ?thesis
    by (simp add: completeWorkoutSession_sessions split: option.splits fault.splits)
qed

lemma loadCurrentSession_current:
  "currentSession (fst (loadCurrentSession f dayId w))
     = (case f of
          NoFault \<Rightarrow> (case select_current (workout_sessions (snd w)) dayId of
                        None \<Rightarrow> currentSession (fst w) | Some s \<Rightarrow> Some s)
        | ErrorResult msg \<Rightarrow> currentSession (fst w)
        | Throws msg \<Rightarrow> currentSession (fst w))"
  by (simp add: loadCurrentSession_def issue_def Let_def split: option.splits fault.splits)

text \<open>
  Claim C4 says that a training day never has more than one open session. Starting a
  session for a day that already has an open one creates a second.
\<close>

theorem second_open_session:
  "length (open_sessions (workout_sessions
      (snd (startWorkoutSession NoFault ''s1'' 100 ''push-day'' (initial_store, empty_remote))))
      ''push-day'') = 1
   \<and> length (open_sessions (workout_sessions
      (snd (startWorkoutSession NoFault ''s2'' 140 ''push-day''
        (startWorkoutSession NoFault ''s1'' 100 ''push-day'' (initial_store, empty_remote)))))
      ''push-day'') = 2"
  by (simp add: store_defs open_sessions_def Let_def)

text \<open>
  Claim C4, as the code has it. Every \<open>startWorkoutSession\<close> whose insert succeeds adds one
  open session for its day, whether or not one is open already; when the insert fails the
  sessions are unchanged. \<open>recordWeight\<close>, \<open>completeSet\<close>, \<open>loadCurrentSession\<close> and
  \<open>clearSession\<close> leave the sessions unchanged, and \<open>completeWorkoutSession\<close> never
  increases the number of open sessions of any day. A session that \<open>loadCurrentSession\<close>
  newly caches is an open session of the day, and none of the day's open sessions started
  later.
\<close>

theorem open_sessions_per_day:
  "open_sessions (workout_sessions (snd (startWorkoutSession NoFault new_id now dayId w))) dayId
     = open_sessions (workout_sessions (snd w)) dayId
       @ [\<lparr> ws_id = new_id, ws_day_id = dayId, ws_started_at = now,
             ws_completed_at = None, ws_notes = None, ws_created_at = now \<rparr>]
   \<and> (f \<noteq> NoFault \<longrightarrow>
        workout_sessions (snd (startWorkoutSession f new_id now dayId w))
          = workout_sessions (snd w))
   \<and> workout_sessions (snd (recordWeight f new_id now exerciseId weight setIndex w))
       = workout_sessions (snd w)
   \<and> workout_sessions (snd (completeSet exerciseId setIndex reps w)) = workout_sessions (snd w)
   \<and> workout_sessions (snd (loadCurrentSession f dayId w)) = workout_sessions (snd w)
   \<and> workout_sessions (snd (clearSession w)) = workout_sessions (snd w)
   \<and> length (open_sessions (workout_sessions (snd (completeWorkoutSession f1 f2 now w))) d)
       \<le> length (open_sessions (workout_sessions (snd w)) d)
   \<and> (\<forall>s. currentSession (fst (loadCurrentSession f dayId w)) = Some s
            \<and> currentSession (fst w) \<noteq> Some s \<longrightarrow>
          s \<in> set (open_sessions (workout_sessions (snd w)) dayId)
          \<and> (\<forall>s'\<in>set (open_sessions (workout_sessions (snd w)) dayId).
                ws_started_at s' \<le> ws_started_at s))"
proof (intro conjI allI impI)
  show "open_sessions (workout_sessions (snd (startWorkoutSession NoFault new_id now dayId w))) dayId
     = open_sessions (workout_sessions (snd w)) dayId
       @ [\<lparr> ws_id = new_id, ws_day_id = dayId, ws_started_at = now,
             ws_completed_at = None, ws_notes = None, ws_created_at = now \<rparr>]"
    by (simp add: startWorkoutSession_sessions open_sessions_def)
next
  assume "f \<noteq> NoFault"
  then show "workout_sessions (snd (startWorkoutSession f new_id now dayId w))
          = workout_sessions (snd w)"
    by (cases f) (simp_all add: startWorkoutSession_sessions)
next
  fix s
  assume a: "currentSession (fst (loadCurrentSession f dayId w)) = Some s
            \<and> currentSession (fst w) \<noteq> Some s"
  then have "select_current (workout_sessions (snd w)) dayId = Some s"
    by (cases f) (auto simp: loadCurrentSession_current split: option.splits)
  from select_current_latest [OF this]
  show "s \<in> set (open_sessions (workout_sessions (snd w)) dayId)"
    and "\<forall>s'\<in>set (open_sessions (workout_sessions (snd w)) dayId).
                ws_started_at s' \<le> ws_started_at s"
    by simp_all
qed (simp_all add: recordWeight_sessions completeSet_sessions loadCurrentSession_sessions
      clearSession_sessions completeWorkoutSession_open)

theorem open_sessions_per_day_witness:
  "ErrorResult ''permission denied'' \<noteq> NoFault
   \<and> workout_sessions (snd (startWorkoutSession (ErrorResult ''permission denied'') ''s3'' 150
        ''push-day'' two_open)) = workout_sessions (snd two_open)
   \<and> length (open_sessions (workout_sessions (snd two_open)) ''push-day'') = 2
   \<and> currentSession (fst (loadCurrentSession NoFault ''push-day'' (clearSession two_open)))
       = Some (session1\<lparr> ws_id := ''s2'', ws_started_at := 140, ws_created_at := 140 \<rparr>)
   \<and> currentSession (fst (clearSession two_open))
       \<noteq> Some (session1\<lparr> ws_id := ''s2'', ws_started_at := 140, ws_created_at := 140 \<rparr>)
   \<and> session1\<lparr> ws_id := ''s2'', ws_started_at := 140, ws_created_at := 140 \<rparr>
       \<in> set (open_sessions (workout_sessions (snd (clearSession two_open))) ''push-day'')
   \<and> map ws_started_at
         (open_sessions (workout_sessions (snd (clearSession two_open))) ''push-day'')
       = [100, 140]"
proof -
  let ?s2 = "session1\<lparr> ws_id := ''s2'', ws_started_at := 140, ws_created_at := 140 \<rparr>"
  have f: "ErrorResult ''permission denied'' \<noteq> NoFault" by simp
  have n: "length (open_sessions (workout_sessions (snd two_open)) ''push-day'') = 2"
    by (simp add: two_open_def store_defs example_defs open_sessions_def Let_def)
  have l: "currentSession (fst (loadCurrentSession NoFault ''push-day'' (clearSession two_open)))
             = Some ?s2"
    by (simp add: two_open_def store_defs example_defs open_sessions_def select_current_def Let_def)
  have c: "currentSession (fst (clearSession two_open)) \<noteq> Some ?s2"
    by (simp add: clearSession_def)
  note inst = open_sessions_per_day [of _ _ "''push-day''" "clearSession two_open" NoFault]
  have e: "workout_sessions (snd (startWorkoutSession (ErrorResult ''permission denied'') ''s3'' 150
        ''push-day'' two_open)) = workout_sessions (snd two_open)"
    using open_sessions_per_day [of "''s3''" 150 "''push-day''" two_open
      "ErrorResult ''permission denied''"] f by blast
  have m: "?s2 \<in> set (open_sessions (workout_sessions (snd (clearSession two_open))) ''push-day'')
     \<and> (\<forall>s'\<in>set (open_sessions (workout_sessions (snd (clearSession two_open))) ''push-day'').
         ws_started_at s' \<le> ws_started_at ?s2)"
    using inst l c by blast
  have st: "map ws_started_at
         (open_sessions (workout_sessions (snd (clearSession two_open))) ''push-day'')
       = [100, 140]"
    by (simp add: two_open_def store_defs example_defs open_sessions_def Let_def)
  from f e n l c m st show ?thesis by simp
qed


end
